theory Spec2Isabelle
  imports Main
begin

section \<open>Time codec\<close>

text \<open>
  The application keeps offsets as Python integers (milliseconds) and shows them as
  \<^verbatim>\<open>mm:ss\<close> strings. Python integers are unbounded, so they are \<^typ>\<open>int\<close> here, and
  \<^verbatim>\<open>//\<close> and \<^verbatim>\<open>%\<close> with a positive divisor are \<open>div\<close> and \<open>mod\<close> (both round towards
  minus infinity). Strings are lists of ASCII characters.
\<close>

subsection \<open>Rendering an integer: the format specification \<^verbatim>\<open>02d\<close>\<close>

definition digit_char :: "nat \<Rightarrow> char" where
  "digit_char d = ''0123456789'' ! d"

text \<open>The decimal digits of a natural number, most significant first; \<^verbatim>\<open>str(n)\<close>.\<close>

fun digits_of :: "nat \<Rightarrow> string" where
  "digits_of n = (if n < 10 then [digit_char n] else digits_of (n div 10) @ [digit_char (n mod 10)])"

declare digits_of.simps [simp del]

text \<open>
  \<^verbatim>\<open>f"{i:02d}"\<close>: the sign, when there is one, counts towards the width of two, so
  only a one-digit non-negative number gets a zero in front.
\<close>

definition format_02d :: "int \<Rightarrow> string" where
  "format_02d i =
     (if i < 0 then CHR ''-'' # digits_of (nat (- i))
      else let s = digits_of (nat i) in replicate (2 - length s) CHR ''0'' @ s)"

text \<open>\<^verbatim>\<open>ms_to_mmss\<close> (main.py, lines 537 to 542).\<close>

definition ms_to_mmss :: "int \<Rightarrow> string" where
  "ms_to_mmss ms =
     (let seconds = ms div 1000;
          mins = seconds div 60;
          secs = seconds mod 60
      in format_02d mins @ '':'' @ format_02d secs)"

subsection \<open>Reading an integer: \<^verbatim>\<open>int(s)\<close> and \<^verbatim>\<open>str.strip\<close>\<close>

text \<open>
  The ASCII characters that \<^verbatim>\<open>str.strip\<close> removes: tab, line feed, vertical tab, form
  feed, carriage return, the four separators 0x1C to 0x1F, and the blank.
\<close>

definition is_space :: "char \<Rightarrow> bool" where
  "is_space c = (c \<in> set [CHR 0x09, CHR 0x0A, CHR 0x0B, CHR 0x0C, CHR 0x0D,
                           CHR 0x1C, CHR 0x1D, CHR 0x1E, CHR 0x1F, CHR '' ''])"

definition strip :: "string \<Rightarrow> string" where
  "strip s = rev (dropWhile is_space (rev (dropWhile is_space s)))"

text \<open>
  \<^verbatim>\<open>int\<close> skips fewer characters around the number than \<^verbatim>\<open>str.strip\<close> removes: tab,
  line feed, vertical tab, form feed, carriage return and the blank, not the separators
  0x1C to 0x1F. With one of those next to the digits \<^verbatim>\<open>int\<close> raises.
\<close>

definition is_int_space :: "char \<Rightarrow> bool" where
  "is_int_space c = (c \<in> set [CHR 0x09, CHR 0x0A, CHR 0x0B, CHR 0x0C, CHR 0x0D, CHR '' ''])"

definition int_strip :: "string \<Rightarrow> string" where
  "int_strip s = rev (dropWhile is_int_space (rev (dropWhile is_int_space s)))"

definition is_digit :: "char \<Rightarrow> bool" where
  "is_digit c = (c \<in> set ''0123456789'')"

definition digit_val :: "char \<Rightarrow> nat option" where
  "digit_val c = (if is_digit c then Some (of_char c - 48) else None)"

text \<open>
  The digits after the first one. An underscore is accepted between two digits only:
  it must be followed by a digit, and it cannot come first.
\<close>

fun parse_digits :: "nat \<Rightarrow> string \<Rightarrow> nat option" where
  "parse_digits acc [] = Some acc"
| "parse_digits acc (c # cs) =
     (if c = CHR ''_'' then
        (case cs of
           [] \<Rightarrow> None
         | d # ds \<Rightarrow> (case digit_val d of None \<Rightarrow> None
                     | Some v \<Rightarrow> parse_digits (acc * 10 + v) ds))
      else (case digit_val c of None \<Rightarrow> None
            | Some v \<Rightarrow> parse_digits (acc * 10 + v) cs))"

definition parse_nat :: "string \<Rightarrow> nat option" where
  "parse_nat s =
     (case s of [] \<Rightarrow> None
      | c # cs \<Rightarrow> (case digit_val c of None \<Rightarrow> None | Some v \<Rightarrow> parse_digits v cs))"

text \<open>
  \<^verbatim>\<open>int(s)\<close> on a string, base ten: the white space that \<^verbatim>\<open>int\<close> skips is dropped
  around the number, one sign may precede the digits, and anything else is rejected. \<open>None\<close> stands for the
  \<^verbatim>\<open>ValueError\<close> that Python raises.
\<close>

definition py_int :: "string \<Rightarrow> int option" where
  "py_int s =
     (case int_strip s of
        [] \<Rightarrow> None
      | c # cs \<Rightarrow>
          if c = CHR ''-'' then map_option (\<lambda>n. - int n) (parse_nat cs)
          else if c = CHR ''+'' then map_option int (parse_nat cs)
          else map_option int (parse_nat (c # cs)))"

datatype py_error = ValueError

definition int_of_str :: "string \<Rightarrow> py_error + int" where
  "int_of_str s = (case py_int s of None \<Rightarrow> Inl ValueError | Some n \<Rightarrow> Inr n)"

text \<open>\<^verbatim>\<open>s.split(sep)\<close> for a one-character separator: never empty, one more part than separators.\<close>

fun split_on :: "char \<Rightarrow> string \<Rightarrow> string list" where
  "split_on sep [] = [[]]"
| "split_on sep (c # cs) =
     (if c = sep then [] # split_on sep cs
      else (case split_on sep cs of [] \<Rightarrow> [[c]] | p # ps \<Rightarrow> (c # p) # ps))"

text \<open>The expression \<^verbatim>\<open>(int(mins) * 60 + int(secs)) * 1000\<close>, with either conversion raising.\<close>

definition mins_secs_to_ms :: "string \<Rightarrow> string \<Rightarrow> py_error + int" where
  "mins_secs_to_ms mins secs =
     (case int_of_str mins of Inl e \<Rightarrow> Inl e
      | Inr m \<Rightarrow> (case int_of_str secs of Inl e \<Rightarrow> Inl e
                 | Inr s \<Rightarrow> Inr ((m * 60 + s) * 1000)))"

text \<open>
  \<^verbatim>\<open>mmss_to_ms\<close> (main.py, lines 584 to 593). With three parts or more the source falls
  back to \<^verbatim>\<open>'0', '0'\<close>.
\<close>

definition mmss_to_ms :: "string \<Rightarrow> py_error + int" where
  "mmss_to_ms mmss =
     (let parts = split_on CHR '':'' mmss in
      if length parts = 2 then mins_secs_to_ms (parts ! 0) (parts ! 1)
      else if length parts = 1 then mins_secs_to_ms ''0'' (parts ! 0)
      else mins_secs_to_ms ''0'' ''0'')"

text \<open>
  The \<^verbatim>\<open>try\<close> block that \<^verbatim>\<open>add_manual_split_from_entry\<close> (lines 618 to 630) and
  \<^verbatim>\<open>auto_split_on_param_change\<close> (lines 481 to 493) both run on the stripped text of the
  entry field. Here three parts or more raise \<^verbatim>\<open>ValueError\<close>.
\<close>

definition entry_to_ms :: "string \<Rightarrow> py_error + int" where
  "entry_to_ms time_str =
     (if CHR '':'' \<in> set time_str then
        (let parts = split_on CHR '':'' time_str in
         if length parts = 2 then mins_secs_to_ms (parts ! 0) (parts ! 1)
         else if length parts = 1 then mins_secs_to_ms ''0'' (parts ! 0)
         else Inl ValueError)
      else (case int_of_str time_str of Inl e \<Rightarrow> Inl e | Inr n \<Rightarrow> Inr (n * 1000)))"

section \<open>The application state\<close>

text \<open>
  The fields of \<^verbatim>\<open>MP3SplitterApp\<close> that the splitting logic reads and writes. A row of
  the tree view holds the track number and the two displayed times. The status bar is
  its last message and that message's kind.
\<close>

datatype status_type = Info | Success | Warning | Error

record app =
  source_file_path :: string
  min_silence_entry :: string
  current_audio_path :: "string option"
  audio_duration_ms :: int
  split_points :: "int list"
  timestamp_tree :: "(int \<times> string \<times> string) list"
  status :: "string \<times> status_type"

definition update_status :: "string \<Rightarrow> status_type \<Rightarrow> app \<Rightarrow> app" where
  "update_status message ty st = st\<lparr>status := (message, ty)\<rparr>"

section \<open>Split points and the segments derived from them\<close>

text \<open>
  \<^verbatim>\<open>update_manual_split_segments\<close> (lines 647 to 660). \<^verbatim>\<open>sorted(set(xs))\<close> is the
  ascending list of the distinct elements; the duration is added when it is not zero.
\<close>

definition boundary_points :: "int \<Rightarrow> int list \<Rightarrow> int list" where
  "boundary_points duration pts =
     filter (\<lambda>p. 0 \<le> p \<and> p \<le> duration)
       (sort (remdups ([0] @ pts @ (if duration \<noteq> 0 then [duration] else []))))"

definition segment_rows :: "int list \<Rightarrow> (int \<times> int \<times> int) list" where
  "segment_rows points =
     map (\<lambda>i. (int i + 1, points ! i, points ! (i + 1))) [0..<length points - 1]"

definition display_row :: "int \<times> int \<times> int \<Rightarrow> int \<times> string \<times> string" where
  "display_row r = (case r of (track, start, end) \<Rightarrow> (track, ms_to_mmss start, ms_to_mmss end))"

definition update_manual_split_segments :: "app \<Rightarrow> app" where
  "update_manual_split_segments st =
     st\<lparr>timestamp_tree :=
          map display_row (segment_rows (boundary_points (audio_duration_ms st) (split_points st)))\<rparr>"

text \<open>
  \<^verbatim>\<open>on_waveform_click\<close> (lines 263 to 281). The click's x coordinate is turned into
  milliseconds in floating point; the model takes the integer that conversion gives
  (\<open>ms\<close>) and whether the click was inside the axes (\<open>inaxes\<close>). The point is clamped and
  always appended.
\<close>

definition on_waveform_click :: "bool \<Rightarrow> int \<Rightarrow> app \<Rightarrow> app" where
  "on_waveform_click inaxes ms st =
     (if \<not> inaxes \<or> audio_duration_ms st = 0 then st
      else let ms' = max 0 (min ms (audio_duration_ms st))
           in update_manual_split_segments (st\<lparr>split_points := split_points st @ [ms']\<rparr>))"

text \<open>
  \<^verbatim>\<open>add_manual_split_from_entry\<close> (lines 612 to 645). The point is clamped and appended
  only when it is not stored yet.
\<close>

definition add_manual_split_from_entry :: "app \<Rightarrow> app" where
  "add_manual_split_from_entry st =
     (let time_str = strip (min_silence_entry st) in
      if audio_duration_ms st = 0 then update_status ''No audio loaded.'' Error st
      else case entry_to_ms time_str of
        Inl e \<Rightarrow> update_status ''Invalid time format. Use mm:ss or seconds.'' Error st
      | Inr ms \<Rightarrow>
          let ms' = max 0 (min ms (audio_duration_ms st));
              st1 = (if ms' \<notin> set (split_points st)
                     then st\<lparr>split_points := split_points st @ [ms']\<rparr> else st)
          in update_status (''Added split point at '' @ ms_to_mmss ms') Success
               (update_manual_split_segments st1))"

section \<open>Automatic splitting\<close>

text \<open>
  \<^verbatim>\<open>split_on_silence\<close> belongs to the audio library; its outcome is an input of the
  model. Of a chunk the program only takes \<^verbatim>\<open>len(chunk)\<close>, its length in milliseconds,
  so a chunk is that length. Decoding or splitting may raise instead.
\<close>

datatype engine_result = Raises string | Chunks "nat list"

text \<open>
  The loop over \<^verbatim>\<open>enumerate(chunks)\<close> (lines 521 to 528, and 451 to 458): \<open>i\<close> is the
  loop index and \<open>current_pos\<close> the running position.
\<close>

fun timestamps_loop :: "nat \<Rightarrow> int \<Rightarrow> nat list \<Rightarrow> (int \<times> int \<times> int) list" where
  "timestamps_loop i current_pos [] = []"
| "timestamps_loop i current_pos (chunk # chunks) =
     (let start_ms = current_pos;
          end_ms = current_pos + int chunk
      in (int i + 1, start_ms, end_ms) # timestamps_loop (Suc i) end_ms chunks)"

text \<open>
  \<^verbatim>\<open>auto_split_on_param_change\<close> (lines 475 to 504), up to the start of the thread: the
  result is the new state and, when a thread is started, its \<^verbatim>\<open>min_silence_len\<close>.
\<close>

definition auto_split_on_param_change :: "app \<Rightarrow> app \<times> int option" where
  "auto_split_on_param_change st =
     (if source_file_path st = [] then (st, None)
      else case entry_to_ms (strip (min_silence_entry st)) of
        Inl e \<Rightarrow>
          (update_status ''Invalid splitting parameter. Please use mm:ss format.'' Error st, None)
      | Inr min_silence_len \<Rightarrow> (st\<lparr>timestamp_tree := []\<rparr>, Some min_silence_len))"

text \<open>
  \<^verbatim>\<open>run_auto_split_task\<close> (lines 506 to 535), the body of the thread. It ends by handing
  \<^verbatim>\<open>update_tree\<close> to the main loop (\<^verbatim>\<open>root.after\<close>) with the timestamps it computed, or
  hands over nothing.
\<close>

definition run_auto_split_task :: "engine_result \<Rightarrow> app \<Rightarrow> app \<times> (int \<times> int \<times> int) list option" where
  "run_auto_split_task r st =
     (let st1 = update_status ''Splitting on silence (auto)...'' Info st in
      case r of
        Raises e \<Rightarrow> (update_status (''Auto split error: '' @ e) Error st1, None)
      | Chunks chunks \<Rightarrow>
          if chunks = [] then
            (update_status ''No silence found to split on. Try adjusting parameters.'' Warning st1,
             None)
          else (st1, Some (timestamps_loop 0 0 chunks)))"

definition update_tree :: "(int \<times> int \<times> int) list \<Rightarrow> app \<Rightarrow> app" where
  "update_tree timestamps st =
     update_status
       (''Auto split complete! Found '' @ digits_of (length timestamps) @ '' tracks.'') Success
       (st\<lparr>timestamp_tree := timestamp_tree st @ map display_row timestamps\<rparr>)"

text \<open>One whole pass with nothing else happening in between.\<close>

definition auto_split_pass :: "engine_result \<Rightarrow> app \<Rightarrow> app" where
  "auto_split_pass r st =
     (case auto_split_on_param_change st of
        (st1, None) \<Rightarrow> st1
      | (st1, Some min_silence_len) \<Rightarrow>
          (case run_auto_split_task r st1 of
             (st2, None) \<Rightarrow> st2
           | (st2, Some timestamps) \<Rightarrow> update_tree timestamps st2))"

subsection \<open>Several runs in flight\<close>

text \<open>
  Every call of \<^verbatim>\<open>auto_split_on_param_change\<close> starts a new thread, and the threads end
  in any order. The system is the application state, the threads that have not
  finished yet (each with the outcome its engine call will have), and the callbacks
  waiting in the main loop, which runs them first in, first out. Between two runs the
  user may type a new text into the entry field.
\<close>

record sys =
  app_state :: app
  workers :: "engine_result list"
  after_queue :: "(int \<times> int \<times> int) list list"

datatype event = EntryEdit string | ParamChange engine_result | WorkerRuns nat | MainLoopIdle

fun step :: "event \<Rightarrow> sys \<Rightarrow> sys" where
  "step (EntryEdit text) s = s\<lparr>app_state := (app_state s)\<lparr>min_silence_entry := text\<rparr>\<rparr>"
| "step (ParamChange r) s =
     (case auto_split_on_param_change (app_state s) of
        (st, None) \<Rightarrow> s\<lparr>app_state := st\<rparr>
      | (st, Some min_silence_len) \<Rightarrow> s\<lparr>app_state := st, workers := workers s @ [r]\<rparr>)"
| "step (WorkerRuns k) s =
     (if k < length (workers s) then
        (case run_auto_split_task (workers s ! k) (app_state s) of
           (st, handed) \<Rightarrow>
             s\<lparr>app_state := st,
               workers := take k (workers s) @ drop (Suc k) (workers s),
               after_queue := after_queue s @ (case handed of None \<Rightarrow> [] | Some ts \<Rightarrow> [ts])\<rparr>)
      else s)"
| "step MainLoopIdle s =
     (case after_queue s of
        [] \<Rightarrow> s
      | ts # rest \<Rightarrow> s\<lparr>app_state := update_tree ts (app_state s), after_queue := rest\<rparr>)"

definition run_events :: "event list \<Rightarrow> sys \<Rightarrow> sys" where
  "run_events evs s = fold step evs s"

section \<open>Export\<close>

text \<open>
  What \<^verbatim>\<open>download_segments_zip\<close> (lines 544 to 582) does to the outside world, in order:
  dialogs, the decoding of the source, the temporary directory, one encoded file per
  segment with its slice bounds, the archive, and the clean-up.
\<close>

datatype effect =
    ShowError string string
  | AskSaveAsFilename
  | LoadMp3 string
  | MkDTemp
  | ExportMp3 string int int
  | WriteZip string "string list"
  | RmTree
  | ShowInfo string string

definition track_file :: "int \<Rightarrow> string" where
  "track_file track = ''track_'' @ format_02d track @ ''.mp3''"

text \<open>
  The loop over the segments: both displayed times are parsed again by
  \<^verbatim>\<open>mmss_to_ms\<close>. A \<^verbatim>\<open>ValueError\<close> there is not caught: it ends the function, after
  the files written so far.
\<close>

fun export_segments :: "(int \<times> string \<times> string) list \<Rightarrow> effect list \<times> py_error option" where
  "export_segments [] = ([], None)"
| "export_segments ((track, start_str, end_str) # rest) =
     (case mmss_to_ms start_str of
        Inl e \<Rightarrow> ([], Some e)
      | Inr start_ms \<Rightarrow>
          (case mmss_to_ms end_str of
             Inl e \<Rightarrow> ([], Some e)
           | Inr end_ms \<Rightarrow>
               (case export_segments rest of
                  (effs, r) \<Rightarrow> (ExportMp3 (track_file track) start_ms end_ms # effs, r))))"

text \<open>
  \<open>zip_path\<close> is what the user answers to the save dialog, empty when the dialog is
  dismissed. Every row of the tree has three values, so each one is a segment. A path
  that is \<^verbatim>\<open>None\<close> or empty counts as no audio loaded.
\<close>

definition download_segments_zip :: "string \<Rightarrow> app \<Rightarrow> app \<times> effect list \<times> py_error option" where
  "download_segments_zip zip_path st =
     (let segments = timestamp_tree st;
          audio_path = (case current_audio_path st of None \<Rightarrow> [] | Some path \<Rightarrow> path)
      in
      if segments = [] \<or> audio_path = [] then
        (st, [ShowError ''Error'' ''No segments to export or no audio loaded.''], None)
      else if zip_path = [] then (st, [AskSaveAsFilename], None)
      else
        (let opened = [AskSaveAsFilename, LoadMp3 audio_path, MkDTemp] in
         case export_segments segments of
           (effs, Some e) \<Rightarrow> (st, opened @ effs, Some e)
         | (effs, None) \<Rightarrow>
             (let n = digits_of (length effs) in
              (update_status (''Exported '' @ n @ '' segments to ZIP'') Success st,
               opened @ effs @
                 [WriteZip zip_path (map (\<lambda>r. track_file (fst r)) segments), RmTree,
                  ShowInfo ''Success''
                    (''Exported '' @ n @ '' segments to ZIP:'' @ [CHR 0x0A] @ zip_path)],
               None))))"


section \<open>Properties of the time codec\<close>

lemma digit_val_digit_char: "d < 10 \<Longrightarrow> digit_val (digit_char d) = Some d"
proof -
  assume "d < 10"
  then have "d \<in> {0,1,2,3,4,5,6,7,8,9}" by auto
  then show ?thesis by (auto simp: digit_val_def is_digit_def digit_char_def)
qed

lemma digit_char_plain: "d < 10 \<Longrightarrow> digit_char d \<noteq> CHR ''_'' \<and> digit_char d \<noteq> CHR '':'' \<and> digit_char d \<noteq> CHR ''-'' \<and> digit_char d \<noteq> CHR ''+'' \<and> \<not> is_int_space (digit_char d)"
proof -
  assume "d < 10"
  then have "d \<in> {0,1,2,3,4,5,6,7,8,9}" by auto
  then show ?thesis by (auto simp: is_int_space_def digit_char_def)
qed

lemma is_digit_iff: "is_digit c \<longleftrightarrow> (\<exists>d<10. c = digit_char d)"
proof
  assume "is_digit c"
  then have "c \<in> digit_char ` {0, 1, 2, 3, 4, 5, 6, 7, 8, 9}"
    by (auto simp: is_digit_def digit_char_def)
  then obtain d where d: "d \<in> {0, 1, 2, 3, 4, 5, 6, 7, 8, 9 :: nat}" "c = digit_char d"
    by blast
  from d(1) have "d < 10" by auto
  with d(2) show "\<exists>d<10. c = digit_char d" by blast
next
  assume "\<exists>d<10. c = digit_char d"
  then obtain d where d: "d < 10" "c = digit_char d" by auto
  then have "d \<in> {0, 1, 2, 3, 4, 5, 6, 7, 8, 9}" by auto
  with d show "is_digit c" by (auto simp: is_digit_def digit_char_def)
qed

lemma parse_digits_snoc:
  "\<forall>c\<in>set ds. is_digit c \<Longrightarrow> d < 10 \<Longrightarrow>
   parse_digits acc (ds @ [digit_char d]) = map_option (\<lambda>v. v * 10 + d) (parse_digits acc ds)"
proof (induction ds arbitrary: acc)
  case Nil
  then show ?case by (simp add: digit_val_digit_char digit_char_plain)
next
  case (Cons c cs)
  then obtain k where k: "k < 10" "c = digit_char k" by (auto simp: is_digit_iff)
  with Cons show ?case by (simp add: digit_val_digit_char digit_char_plain)
qed

lemma digits_of_digits: "\<forall>c\<in>set (digits_of n). is_digit c"
proof (induction n rule: digits_of.induct)
  case (1 n)
  show ?case
  proof (cases "n < 10")
    case True
    then show ?thesis by (subst digits_of.simps) (auto simp: is_digit_iff)
  next
    case False
    have "is_digit (digit_char (n mod 10))"
      unfolding is_digit_iff by (rule exI [of _ "n mod 10"]) simp
    with 1 False show ?thesis by (subst digits_of.simps) auto
  qed
qed

lemma digits_of_nonempty: "digits_of n \<noteq> []"
  by (subst digits_of.simps) simp

lemma parse_nat_digits_of: "parse_nat (digits_of n) = Some n"
proof (induction n rule: digits_of.induct)
  case (1 n)
  show ?case
  proof (cases "n < 10")
    case True
    then show ?thesis by (subst digits_of.simps) (simp add: parse_nat_def digit_val_digit_char)
  next
    case False
    obtain c cs where cs: "digits_of (n div 10) = c # cs"
      using digits_of_nonempty [of "n div 10"] by (cases "digits_of (n div 10)") auto
    have dig: "\<forall>x\<in>set (c # cs). is_digit x" using digits_of_digits [of "n div 10"] cs by simp
    then have c: "is_digit c" and rest: "\<forall>x\<in>set cs. is_digit x" by simp_all
    have ih: "parse_nat (c # cs) = Some (n div 10)" using 1 False cs by simp
    from c obtain k where k: "k < 10" "c = digit_char k" by (auto simp: is_digit_iff)
    have pd: "parse_digits k cs = Some (n div 10)"
      using ih k by (simp add: parse_nat_def digit_val_digit_char)
    have "digits_of n = c # (cs @ [digit_char (n mod 10)])"
      using False cs by (subst digits_of.simps) simp
    then have "parse_nat (digits_of n) = parse_digits k (cs @ [digit_char (n mod 10)])"
      using k by (simp add: parse_nat_def digit_val_digit_char)
    also have "\<dots> = map_option (\<lambda>v. v * 10 + n mod 10) (parse_digits k cs)"
      using rest by (intro parse_digits_snoc) simp_all
    also have "\<dots> = Some n" using pd by simp
    finally show ?thesis .
  qed
qed

lemma dropWhile_hd: "xs \<noteq> [] \<Longrightarrow> \<not> P (hd xs) \<Longrightarrow> dropWhile P xs = xs"
  by (cases xs) auto

lemma int_strip_plain:
  assumes "s \<noteq> []" "\<not> is_int_space (hd s)" "\<not> is_int_space (last s)"
  shows "int_strip s = s"
proof -
  have a: "dropWhile is_int_space s = s" using assms by (simp add: dropWhile_hd)
  have "rev s \<noteq> []" "hd (rev s) = last s" using assms by (simp_all add: hd_rev)
  then have b: "dropWhile is_int_space (rev s) = rev s" using assms by (simp add: dropWhile_hd)
  show ?thesis by (simp add: int_strip_def a b)
qed

lemma is_digit_plain:
  "is_digit c \<Longrightarrow> c \<noteq> CHR ''_'' \<and> c \<noteq> CHR '':'' \<and> c \<noteq> CHR ''-'' \<and> c \<noteq> CHR ''+'' \<and> \<not> is_int_space c"
  by (auto simp: is_digit_iff digit_char_plain)

lemma is_digit_zero: "is_digit CHR ''0''"
  by (simp add: is_digit_def)

lemma parse_nat_leading_zero:
  assumes "is_digit c"
  shows "parse_nat (CHR ''0'' # c # cs) = parse_nat (c # cs)"
proof -
  from assms obtain k where k: "k < 10" "c = digit_char k" using is_digit_iff by blast
  have z: "digit_val CHR ''0'' = Some 0" by (simp add: digit_val_def is_digit_def)
  show ?thesis by (simp add: parse_nat_def z k digit_val_digit_char digit_char_plain)
qed

lemma py_int_digits:
  assumes "s \<noteq> []" "\<forall>c\<in>set s. is_digit c"
  shows "py_int s = map_option int (parse_nat s)"
proof -
  obtain c cs where s: "s = c # cs" using assms by (cases s) auto
  have "is_digit (hd s)" "is_digit (last s)" using assms by simp_all
  then have "int_strip s = s" using assms is_digit_plain by (intro int_strip_plain) auto
  moreover have "c \<noteq> CHR ''-''" "c \<noteq> CHR ''+''" using assms s is_digit_plain by auto
  ultimately show ?thesis by (simp add: py_int_def s)
qed

lemma format_02d_digits: "0 \<le> i \<Longrightarrow> format_02d i \<noteq> [] \<and> (\<forall>c\<in>set (format_02d i). is_digit c)"
  using digits_of_digits [of "nat i"] digits_of_nonempty [of "nat i"]
  by (auto simp: format_02d_def Let_def is_digit_zero)

lemma parse_nat_format_02d: "0 \<le> i \<Longrightarrow> parse_nat (format_02d i) = Some (nat i)"
proof -
  assume i: "0 \<le> i"
  obtain c cs where cs: "digits_of (nat i) = c # cs"
    using digits_of_nonempty [of "nat i"] by (cases "digits_of (nat i)") auto
  have c: "is_digit c" using digits_of_digits [of "nat i"] cs by simp
  have p: "parse_nat (c # cs) = Some (nat i)" using parse_nat_digits_of [of "nat i"] cs by simp
  show ?thesis
  proof (cases cs)
    case Nil
    then have "format_02d i = [CHR ''0'', c]" using i cs by (simp add: format_02d_def)
    then show ?thesis using parse_nat_leading_zero [OF c, of "[]"] p Nil by simp
  next
    case (Cons d ds)
    then have "format_02d i = c # cs" using i cs by (simp add: format_02d_def)
    then show ?thesis using p by simp
  qed
qed

lemma py_int_format_02d: "0 \<le> i \<Longrightarrow> py_int (format_02d i) = Some i"
  using format_02d_digits [of i] parse_nat_format_02d [of i] by (simp add: py_int_digits)

lemma split_on_no_sep: "sep \<notin> set s \<Longrightarrow> split_on sep s = [s]"
  by (induction s) auto

lemma split_on_one_sep:
  "sep \<notin> set a \<Longrightarrow> sep \<notin> set b \<Longrightarrow> split_on sep (a @ sep # b) = [a, b]"
  by (induction a) (auto simp: split_on_no_sep)

lemma mmss_to_ms_ms_to_mmss: "0 \<le> ms \<Longrightarrow> mmss_to_ms (ms_to_mmss ms) = Inr ((ms div 1000) * 1000)"
proof -
  assume ms: "0 \<le> ms"
  define seconds where "seconds = ms div 1000"
  define mins where "mins = seconds div 60"
  define secs where "secs = seconds mod 60"
  have nn: "0 \<le> mins" "0 \<le> secs" using ms by (simp_all add: mins_def secs_def seconds_def pos_imp_zdiv_nonneg_iff)
  have nc: "CHR '':'' \<notin> set (format_02d mins)" "CHR '':'' \<notin> set (format_02d secs)"
    using format_02d_digits nn is_digit_plain by blast+
  have sp: "split_on CHR '':'' (ms_to_mmss ms) = [format_02d mins, format_02d secs]"
    using split_on_one_sep [OF nc] by (simp add: ms_to_mmss_def Let_def seconds_def mins_def secs_def)
  have "mmss_to_ms (ms_to_mmss ms) = Inr ((mins * 60 + secs) * 1000)"
    using nn by (simp add: mmss_to_ms_def sp mins_secs_to_ms_def int_of_str_def py_int_format_02d)
  moreover have "mins * 60 + secs = seconds" by (simp add: mins_def secs_def)
  ultimately show ?thesis by (simp add: seconds_def)
qed

text \<open>
  Claim C2. For every non-negative number of milliseconds, showing it as \<^verbatim>\<open>mm:ss\<close> and
  parsing that string again succeeds and gives the milliseconds rounded down to the
  whole second: \<^verbatim>\<open>mmss_to_ms(ms_to_mmss(ms)) == (ms // 1000) * 1000\<close>.
\<close>

theorem display_round_trip:
  "0 \<le> ms \<Longrightarrow> mmss_to_ms (ms_to_mmss ms) = Inr ((ms div 1000) * 1000)"
  by (rule mmss_to_ms_ms_to_mmss)

theorem display_round_trip_witness:
  "(0::int) \<le> 754321 \<and> mmss_to_ms (ms_to_mmss 754321) = Inr 754000"
  using display_round_trip [of 754321] by simp

subsection \<open>Which strings are rejected\<close>

lemma split_on_length: "length (split_on sep s) = Suc (length (filter (\<lambda>c. c = sep) s))"
  by (induction s) (auto split: list.splits)






section \<open>Properties of the derived segments\<close>

lemma boundary_points_props:
  assumes "0 < d"
  shows "sorted (boundary_points d pts)" "distinct (boundary_points d pts)"
        "0 \<in> set (boundary_points d pts)" "d \<in> set (boundary_points d pts)"
        "\<forall>p\<in>set (boundary_points d pts). 0 \<le> p \<and> p \<le> d"
  using assms by (auto simp: boundary_points_def sorted_wrt_filter)

lemma sorted_hd_least: "sorted xs \<Longrightarrow> x \<in> set xs \<Longrightarrow> hd xs \<le> (x::int)"
  by (cases xs) auto

lemma sorted_last_greatest: "sorted xs \<Longrightarrow> x \<in> set xs \<Longrightarrow> (x::int) \<le> last xs"
  by (induction xs) (auto split: if_splits)

lemma boundary_points_ends:
  assumes "0 < d"
  shows "hd (boundary_points d pts) = 0" "last (boundary_points d pts) = d"
        "2 \<le> length (boundary_points d pts)"
proof -
  let ?P = "boundary_points d pts"
  note p = boundary_points_props [OF assms, of pts]
  have ne: "?P \<noteq> []" using p(3) by auto
  have "hd ?P \<le> 0" using sorted_hd_least [OF p(1) p(3)] .
  moreover have "0 \<le> hd ?P" using p(5) ne by simp
  ultimately show h: "hd ?P = 0" by simp
  have "d \<le> last ?P" using sorted_last_greatest [OF p(1) p(4)] .
  moreover have "last ?P \<le> d" using p(5) ne by simp
  ultimately show l: "last ?P = d" by simp
  show "2 \<le> length ?P"
  proof (rule ccontr)
    assume "\<not> 2 \<le> length ?P"
    then have "length ?P \<le> 1" by simp
    moreover have "length ?P \<noteq> 0" using ne by simp
    ultimately have "length ?P = 1" by linarith
    then obtain x where "?P = [x]" by (auto simp: length_Suc_conv)
    with h l assms show False by simp
  qed
qed

lemma segment_rows_length: "length (segment_rows ps) = length ps - 1"
  by (simp add: segment_rows_def)

lemma segment_rows_nth:
  "i < length ps - 1 \<Longrightarrow> segment_rows ps ! i = (int i + 1, ps ! i, ps ! Suc i)"
  by (simp add: segment_rows_def)

lemma segment_rows_shape:
  assumes "2 \<le> length ps"
  shows "segment_rows ps \<noteq> []"
    and "fst (snd (hd (segment_rows ps))) = hd ps"
    and "snd (snd (last (segment_rows ps))) = last ps"
    and "\<forall>i. Suc i < length (segment_rows ps) \<longrightarrow>
           snd (snd (segment_rows ps ! i)) = fst (snd (segment_rows ps ! Suc i))"
proof -
  let ?S = "segment_rows ps"
  have len: "length ?S = length ps - 1" by (rule segment_rows_length)
  show ne: "?S \<noteq> []" using assms len by auto
  have "hd ?S = ?S ! 0" using ne by (simp add: hd_conv_nth)
  also have "\<dots> = (1, ps ! 0, ps ! Suc 0)" using assms segment_rows_nth [of 0 ps] by simp
  finally have "fst (snd (hd ?S)) = ps ! 0" by simp
  moreover have "ps \<noteq> []" using assms by auto
  ultimately show "fst (snd (hd ?S)) = hd ps" by (simp add: hd_conv_nth)
  have "length ?S - 1 = length ps - 2" using len by linarith
  then have "last ?S = ?S ! (length ps - 2)" using ne last_conv_nth [of ?S] by simp
  also have "\<dots> = (int (length ps - 2) + 1, ps ! (length ps - 2), ps ! Suc (length ps - 2))"
    using assms by (intro segment_rows_nth) simp
  finally have "snd (snd (last ?S)) = ps ! Suc (length ps - 2)" by simp
  moreover have "ps \<noteq> []" "Suc (length ps - 2) = length ps - 1" using assms by auto
  ultimately show "snd (snd (last ?S)) = last ps" by (simp add: last_conv_nth)
  show "\<forall>i. Suc i < length ?S \<longrightarrow> snd (snd (?S ! i)) = fst (snd (?S ! Suc i))"
    by (simp add: len segment_rows_nth)
qed

lemma update_manual_split_segments_tree:
  "timestamp_tree (update_manual_split_segments st) =
     map display_row (segment_rows (boundary_points (audio_duration_ms st) (split_points st)))"
  by (simp add: update_manual_split_segments_def)

text \<open>
  Claim C1. With a loaded buffer of duration greater than 0 and any stored split points
  (duplicates and out-of-range values included), the segments that
  \<^verbatim>\<open>update_manual_split_segments\<close> derives are contiguous and exhaustive: there is at
  least one, the first starts at 0, the last ends at the duration, and every segment
  ends where the next one starts. The rows put into the tree are these segments, each
  time shown as \<^verbatim>\<open>mm:ss\<close>.
\<close>

theorem derive_segments_contiguous:
  assumes "0 < audio_duration_ms st"
  shows "let segs = segment_rows (boundary_points (audio_duration_ms st) (split_points st)) in
           timestamp_tree (update_manual_split_segments st) = map display_row segs \<and>
           segs \<noteq> [] \<and>
           fst (snd (hd segs)) = 0 \<and>
           snd (snd (last segs)) = audio_duration_ms st \<and>
           (\<forall>i. Suc i < length segs \<longrightarrow> snd (snd (segs ! i)) = fst (snd (segs ! Suc i)))"
  using segment_rows_shape [OF boundary_points_ends(3) [OF assms, of "split_points st"]]
        boundary_points_ends(1,2) [OF assms, of "split_points st"]
  by (simp add: Let_def update_manual_split_segments_tree)

theorem derive_segments_contiguous_witness:
  "0 < audio_duration_ms
     \<lparr>source_file_path = ''a.mp3'', min_silence_entry = ''00:01'',
      current_audio_path = Some ''a.mp3'', audio_duration_ms = 10000,
      split_points = [7000, 2000, 7000, - 50, 11000],
      timestamp_tree = [], status = ([], Info)\<rparr> \<and>
   segment_rows (boundary_points 10000 [7000, 2000, 7000, - 50, 11000]) =
     [(1, 0, 2000), (2, 2000, 7000), (3, 7000, 10000)] \<and>
   timestamp_tree (update_manual_split_segments
     \<lparr>source_file_path = ''a.mp3'', min_silence_entry = ''00:01'',
      current_audio_path = Some ''a.mp3'', audio_duration_ms = 10000,
      split_points = [7000, 2000, 7000, - 50, 11000],
      timestamp_tree = [], status = ([], Info)\<rparr>) =
     map display_row [(1, 0, 2000), (2, 2000, 7000), (3, 7000, 10000)] \<and>
   fst (snd (hd [(1 :: int, 0 :: int, 2000 :: int), (2, 2000, 7000), (3, 7000, 10000)])) = 0 \<and>
   snd (snd (last [(1 :: int, 0 :: int, 2000 :: int), (2, 2000, 7000), (3, 7000, 10000)])) = 10000"
proof -
  let ?st = "\<lparr>source_file_path = ''a.mp3'', min_silence_entry = ''00:01'',
      current_audio_path = Some ''a.mp3'', audio_duration_ms = 10000,
      split_points = [7000, 2000, 7000, - 50, 11000],
      timestamp_tree = [], status = ([], Info)\<rparr>"
  have h: "0 < audio_duration_ms ?st" by simp
  have ev: "segment_rows (boundary_points 10000 [7000, 2000, 7000, - 50, 11000]) =
     [(1, 0, 2000), (2, 2000, 7000), (3, 7000, 10000)]"
    by code_simp
  from derive_segments_contiguous [OF h] show ?thesis
    by (simp add: ev)
qed

subsection \<open>Adding the same point twice\<close>

lemma boundary_points_set_cong:
  "set pts = set pts' \<Longrightarrow> boundary_points d pts = boundary_points d pts'"
proof -
  assume eq: "set pts = set pts'"
  have sr: "\<And>xs ys :: int list. set xs = set ys \<Longrightarrow> sort (remdups xs) = sort (remdups ys)"
    by (metis sorted_list_of_set_sort_remdups)
  have "sort (remdups ([0] @ pts @ (if d \<noteq> 0 then [d] else []))) =
        sort (remdups ([0] @ pts' @ (if d \<noteq> 0 then [d] else [])))"
    using eq by (intro sr) simp
  then show ?thesis unfolding boundary_points_def by simp
qed

lemma on_waveform_click_twice:
  "timestamp_tree (on_waveform_click inaxes p (on_waveform_click inaxes p st)) =
   timestamp_tree (on_waveform_click inaxes p st)"
proof (cases "\<not> inaxes \<or> audio_duration_ms st = 0")
  case True
  then show ?thesis by (auto simp: on_waveform_click_def)
next
  case False
  let ?c = "max 0 (min p (audio_duration_ms st))"
  have "boundary_points (audio_duration_ms st) (split_points st @ [?c] @ [?c]) =
        boundary_points (audio_duration_ms st) (split_points st @ [?c])"
    by (rule boundary_points_set_cong) simp
  with False show ?thesis
    by (simp add: on_waveform_click_def update_manual_split_segments_def Let_def)
qed

lemma add_manual_split_from_entry_twice:
  "add_manual_split_from_entry (add_manual_split_from_entry st) = add_manual_split_from_entry st"
  by (auto simp: add_manual_split_from_entry_def update_status_def
        update_manual_split_segments_def Let_def split: sum.splits)

text \<open>
  Claim C8. Adding a point is idempotent on the derived segments. A second click at
  the same position leaves the rows of the tree as the first click made them, for
  every state and every position, although the click appends the clamped point to the
  stored list both times. A second manual split with the same entry text changes
  nothing at all, since that path appends only a point that is not stored yet.
\<close>

theorem add_point_idempotent:
  "timestamp_tree (on_waveform_click inaxes p (on_waveform_click inaxes p st)) =
     timestamp_tree (on_waveform_click inaxes p st) \<and>
   add_manual_split_from_entry (add_manual_split_from_entry st) = add_manual_split_from_entry st \<and>
   (inaxes \<and> audio_duration_ms st \<noteq> 0 \<longrightarrow>
      split_points (on_waveform_click inaxes p (on_waveform_click inaxes p st)) =
        split_points st @ [max 0 (min p (audio_duration_ms st)), max 0 (min p (audio_duration_ms st))])"
  using on_waveform_click_twice [of inaxes p st] add_manual_split_from_entry_twice [of st]
  by (simp add: on_waveform_click_def update_manual_split_segments_def Let_def)

theorem add_point_idempotent_witness:
  "audio_duration_ms
     \<lparr>source_file_path = ''a.mp3'', min_silence_entry = ''00:07'',
      current_audio_path = Some ''a.mp3'', audio_duration_ms = 10000, split_points = [2000],
      timestamp_tree = [], status = ([], Info)\<rparr> \<noteq> 0 \<and>
   timestamp_tree (on_waveform_click True 7500 (on_waveform_click True 7500
     \<lparr>source_file_path = ''a.mp3'', min_silence_entry = ''00:07'',
      current_audio_path = Some ''a.mp3'', audio_duration_ms = 10000, split_points = [2000],
      timestamp_tree = [], status = ([], Info)\<rparr>)) =
     [(1, ''00:00'', ''00:02''), (2, ''00:02'', ''00:07''), (3, ''00:07'', ''00:10'')] \<and>
   timestamp_tree (on_waveform_click True 7500
     \<lparr>source_file_path = ''a.mp3'', min_silence_entry = ''00:07'',
      current_audio_path = Some ''a.mp3'', audio_duration_ms = 10000, split_points = [2000],
      timestamp_tree = [], status = ([], Info)\<rparr>) =
     [(1, ''00:00'', ''00:02''), (2, ''00:02'', ''00:07''), (3, ''00:07'', ''00:10'')] \<and>
   split_points (on_waveform_click True 7500 (on_waveform_click True 7500
     \<lparr>source_file_path = ''a.mp3'', min_silence_entry = ''00:07'',
      current_audio_path = Some ''a.mp3'', audio_duration_ms = 10000, split_points = [2000],
      timestamp_tree = [], status = ([], Info)\<rparr>)) = [2000, 7500, 7500]"
proof -
  let ?st = "\<lparr>source_file_path = ''a.mp3'', min_silence_entry = ''00:07'',
      current_audio_path = Some ''a.mp3'', audio_duration_ms = 10000, split_points = [2000],
      timestamp_tree = [], status = ([], Info)\<rparr>"
  have ev: "timestamp_tree (on_waveform_click True 7500 ?st) =
     [(1, ''00:00'', ''00:02''), (2, ''00:02'', ''00:07''), (3, ''00:07'', ''00:10'')]"
    by code_simp
  from add_point_idempotent [of True 7500 ?st] show ?thesis
    by (simp add: ev)
qed

section \<open>Properties of automatic splitting\<close>

lemma timestamps_loop_length: "length (timestamps_loop i pos chunks) = length chunks"
  by (induction chunks arbitrary: i pos) (simp_all add: Let_def)

lemma timestamps_loop_nth:
  "k < length chunks \<Longrightarrow>
   timestamps_loop i pos chunks ! k =
     (int (i + k) + 1, pos + int (sum_list (take k chunks)),
      pos + int (sum_list (take k chunks)) + int (chunks ! k))"
proof (induction chunks arbitrary: i pos k)
  case Nil
  then show ?case by simp
next
  case (Cons c cs)
  show ?case
  proof (cases k)
    case 0
    then show ?thesis by (simp add: Let_def)
  next
    case (Suc j)
    then have "j < length cs" using Cons.prems by simp
    from Cons.IH [OF this, of "Suc i" "pos + int c"] Suc show ?thesis
      by (simp add: Let_def)
  qed
qed

text \<open>
  Claim C5. For a non-empty chunk sequence the thread hands over one timestamp per
  chunk, and the timestamp of chunk \<open>k\<close> (counted from 0) has the track number
  \<open>k + 1\<close>, starts at the sum of the lengths of the chunks before it (so chunk 0 starts
  at 0), and ends at its start plus its own length, which is where the next one starts.
\<close>

theorem auto_split_timestamps:
  "k < length chunks \<Longrightarrow>
   snd (run_auto_split_task (Chunks chunks) st) = Some (timestamps_loop 0 0 chunks) \<and>
   length (timestamps_loop 0 0 chunks) = length chunks \<and>
   timestamps_loop 0 0 chunks ! k =
     (int k + 1, int (sum_list (take k chunks)),
      int (sum_list (take k chunks)) + int (chunks ! k))"
  using timestamps_loop_nth [of k chunks 0 0]
  by (auto simp: run_auto_split_task_def Let_def timestamps_loop_length)

theorem auto_split_timestamps_witness:
  "(1::nat) < length [4200, 3000, 2800 :: nat] \<and>
   snd (run_auto_split_task (Chunks [4200, 3000, 2800])
     \<lparr>source_file_path = ''a.mp3'', min_silence_entry = ''00:01'',
      current_audio_path = Some ''a.mp3'', audio_duration_ms = 10000, split_points = [],
      timestamp_tree = [], status = ([], Info)\<rparr>)
     = Some [(1, 0, 4200), (2, 4200, 7200), (3, 7200, 10000)] \<and>
   timestamps_loop 0 0 [4200, 3000, 2800] ! 1 = (2, 4200, 7200)"
  using auto_split_timestamps [of 1 "[4200, 3000, 2800]"]
  by (simp add: run_auto_split_task_def)

text \<open>
  Claim C6. When the engine returns no chunk, the thread reports it in the status bar
  as a warning, ``No silence found to split on'', hands nothing over to the main loop,
  and changes nothing else: the stored split points of the whole pass are those from
  before. An exception of the engine is reported as an error instead.
\<close>

theorem auto_split_nothing_found:
  "run_auto_split_task (Chunks []) st =
     (st\<lparr>status := (''No silence found to split on. Try adjusting parameters.'', Warning)\<rparr>, None) \<and>
   split_points (auto_split_pass (Chunks []) st) = split_points st \<and>
   snd (status (fst (run_auto_split_task (Raises e) st))) = Error"
  by (auto simp: run_auto_split_task_def auto_split_pass_def auto_split_on_param_change_def
        update_status_def split: sum.splits)

theorem auto_split_nothing_found_witness:
  "auto_split_pass (Chunks [])
     \<lparr>source_file_path = ''a.mp3'', min_silence_entry = ''00:01'',
      current_audio_path = Some ''a.mp3'', audio_duration_ms = 10000, split_points = [2000],
      timestamp_tree = [(1, ''00:00'', ''00:02''), (2, ''00:02'', ''00:10'')],
      status = ([], Info)\<rparr> =
     \<lparr>source_file_path = ''a.mp3'', min_silence_entry = ''00:01'',
      current_audio_path = Some ''a.mp3'', audio_duration_ms = 10000, split_points = [2000],
      timestamp_tree = [],
      status = (''No silence found to split on. Try adjusting parameters.'', Warning)\<rparr>"
proof -
  let ?st = "\<lparr>source_file_path = ''a.mp3'', min_silence_entry = ''00:01'',
      current_audio_path = Some ''a.mp3'', audio_duration_ms = 10000, split_points = [2000],
      timestamp_tree = [(1, ''00:00'', ''00:02''), (2, ''00:02'', ''00:10'')],
      status = ([], Info)\<rparr>"
  have ev: "auto_split_on_param_change ?st = (?st\<lparr>timestamp_tree := []\<rparr>, Some 1000)"
    by code_simp
  from auto_split_nothing_found [of "?st\<lparr>timestamp_tree := []\<rparr>"] show ?thesis
    by (simp add: auto_split_pass_def ev)
qed

text \<open>
  Claim C4 says that the engine's chunk boundaries are unioned with the manual split
  points, so that the segments derived after an auto-split pass reflect both. The
  code never stores a chunk boundary. With a manual point at 2000 ms and chunks of
  4200 ms and 5800 ms, the rows shown after the pass are the two chunks alone, with no
  boundary at \<^verbatim>\<open>00:02\<close>; and the rows derived from the stored points afterwards have
  the manual boundary alone, with none at \<^verbatim>\<open>00:04\<close>.
\<close>

theorem auto_split_union_counterexample:
  "timestamp_tree (auto_split_pass (Chunks [4200, 5800])
     \<lparr>source_file_path = ''a.mp3'', min_silence_entry = ''00:01'',
      current_audio_path = Some ''a.mp3'', audio_duration_ms = 10000, split_points = [2000],
      timestamp_tree = [(1, ''00:00'', ''00:02''), (2, ''00:02'', ''00:10'')],
      status = ([], Info)\<rparr>) =
     [(1, ''00:00'', ''00:04''), (2, ''00:04'', ''00:10'')] \<and>
   timestamp_tree (update_manual_split_segments (auto_split_pass (Chunks [4200, 5800])
     \<lparr>source_file_path = ''a.mp3'', min_silence_entry = ''00:01'',
      current_audio_path = Some ''a.mp3'', audio_duration_ms = 10000, split_points = [2000],
      timestamp_tree = [(1, ''00:00'', ''00:02''), (2, ''00:02'', ''00:10'')],
      status = ([], Info)\<rparr>)) =
     [(1, ''00:00'', ''00:02''), (2, ''00:02'', ''00:10'')]"
  by code_simp

text \<open>
  Claim C4, amended. An auto-split pass never removes a manual split point, and it
  adds none: the stored split points after the pass are exactly those before it. When
  the pass runs (a source file is selected, the entry text parses) and the engine
  returns at least one chunk, the rows shown afterwards are the engine's chunk
  timestamps and nothing else.
\<close>

theorem auto_split_keeps_manual_points:
  "split_points (auto_split_pass r st) = split_points st \<and>
   (source_file_path st \<noteq> [] \<and> entry_to_ms (strip (min_silence_entry st)) = Inr n \<and>
    chunks \<noteq> [] \<longrightarrow>
      timestamp_tree (auto_split_pass (Chunks chunks) st) =
        map display_row (timestamps_loop 0 0 chunks))"
  by (auto simp: auto_split_pass_def auto_split_on_param_change_def run_auto_split_task_def
        update_tree_def update_status_def Let_def split: sum.splits engine_result.splits)

theorem auto_split_keeps_manual_points_witness:
  "source_file_path
     \<lparr>source_file_path = ''a.mp3'', min_silence_entry = ''00:01'',
      current_audio_path = Some ''a.mp3'', audio_duration_ms = 10000, split_points = [2000],
      timestamp_tree = [(1, ''00:00'', ''00:02''), (2, ''00:02'', ''00:10'')],
      status = ([], Info)\<rparr> \<noteq> [] \<and>
   entry_to_ms (strip ''00:01'') = Inr 1000 \<and>
   [4200, 5800 :: nat] \<noteq> [] \<and>
   split_points (auto_split_pass (Chunks [4200, 5800])
     \<lparr>source_file_path = ''a.mp3'', min_silence_entry = ''00:01'',
      current_audio_path = Some ''a.mp3'', audio_duration_ms = 10000, split_points = [2000],
      timestamp_tree = [(1, ''00:00'', ''00:02''), (2, ''00:02'', ''00:10'')],
      status = ([], Info)\<rparr>) = [2000] \<and>
   timestamp_tree (auto_split_pass (Chunks [4200, 5800])
     \<lparr>source_file_path = ''a.mp3'', min_silence_entry = ''00:01'',
      current_audio_path = Some ''a.mp3'', audio_duration_ms = 10000, split_points = [2000],
      timestamp_tree = [(1, ''00:00'', ''00:02''), (2, ''00:02'', ''00:10'')],
      status = ([], Info)\<rparr>) =
     map display_row [(1, 0, 4200), (2, 4200, 10000)]"
proof -
  let ?st = "\<lparr>source_file_path = ''a.mp3'', min_silence_entry = ''00:01'',
      current_audio_path = Some ''a.mp3'', audio_duration_ms = 10000, split_points = [2000],
      timestamp_tree = [(1, ''00:00'', ''00:02''), (2, ''00:02'', ''00:10'')],
      status = ([], Info)\<rparr>"
  have ev: "entry_to_ms (strip ''00:01'') = Inr 1000" by code_simp
  from auto_split_keeps_manual_points [of "Chunks [4200, 5800]" ?st 1000 "[4200, 5800]"]
  show ?thesis by (simp add: ev)
qed

text \<open>
  Claim C10 asks that the result of an auto-split run is never applied once a newer
  run has started. The code starts a thread on every parameter change, neither
  refusing the start nor marking the older run as superseded, and \<^verbatim>\<open>update_tree\<close>
  inserts whatever it is given. Here a run is started with the entry \<^verbatim>\<open>00:01\<close>; the
  entry is changed to \<^verbatim>\<open>00:05\<close> and a second run is started while the first is in
  flight; the first then finishes and its callback runs. The rows of the first run are
  in the tree, with the second run still in flight; when the second run delivers, its
  row comes after them.
\<close>

theorem stale_result_applied:
  "run_events
     [ParamChange (Chunks [3000, 7000]), EntryEdit ''00:05'', ParamChange (Chunks [10000]),
      WorkerRuns 0, MainLoopIdle]
     \<lparr>app_state =
        \<lparr>source_file_path = ''a.mp3'', min_silence_entry = ''00:01'',
         current_audio_path = Some ''a.mp3'', audio_duration_ms = 10000, split_points = [],
         timestamp_tree = [], status = ([], Info)\<rparr>,
      workers = [], after_queue = []\<rparr> =
   \<lparr>app_state =
      \<lparr>source_file_path = ''a.mp3'', min_silence_entry = ''00:05'',
       current_audio_path = Some ''a.mp3'', audio_duration_ms = 10000, split_points = [],
       timestamp_tree = [(1, ''00:00'', ''00:03''), (2, ''00:03'', ''00:10'')],
       status = (''Auto split complete! Found 2 tracks.'', Success)\<rparr>,
    workers = [Chunks [10000]], after_queue = []\<rparr> \<and>
   timestamp_tree (app_state (run_events
     [ParamChange (Chunks [3000, 7000]), EntryEdit ''00:05'', ParamChange (Chunks [10000]),
      WorkerRuns 0, MainLoopIdle, WorkerRuns 0, MainLoopIdle]
     \<lparr>app_state =
        \<lparr>source_file_path = ''a.mp3'', min_silence_entry = ''00:01'',
         current_audio_path = Some ''a.mp3'', audio_duration_ms = 10000, split_points = [],
         timestamp_tree = [], status = ([], Info)\<rparr>,
      workers = [], after_queue = []\<rparr>)) =
     [(1, ''00:00'', ''00:03''), (2, ''00:03'', ''00:10''), (1, ''00:00'', ''00:10'')]"
  by code_simp

section \<open>Properties of the export\<close>

text \<open>
  Claim C7. With no row in the tree, the export shows the error dialog and returns: no
  save dialog is opened, no audio is decoded, no file is written, and the state is
  unchanged.
\<close>

theorem export_empty:
  "timestamp_tree st = [] \<Longrightarrow>
   download_segments_zip zip_path st =
     (st, [ShowError ''Error'' ''No segments to export or no audio loaded.''], None)"
  by (simp add: download_segments_zip_def)

theorem export_empty_witness:
  "timestamp_tree
     \<lparr>source_file_path = ''a.mp3'', min_silence_entry = ''00:01'',
      current_audio_path = Some ''a.mp3'', audio_duration_ms = 10000, split_points = [2000],
      timestamp_tree = [], status = ([], Info)\<rparr> = [] \<and>
   download_segments_zip ''out.zip''
     \<lparr>source_file_path = ''a.mp3'', min_silence_entry = ''00:01'',
      current_audio_path = Some ''a.mp3'', audio_duration_ms = 10000, split_points = [2000],
      timestamp_tree = [], status = ([], Info)\<rparr> =
     (\<lparr>source_file_path = ''a.mp3'', min_silence_entry = ''00:01'',
       current_audio_path = Some ''a.mp3'', audio_duration_ms = 10000, split_points = [2000],
       timestamp_tree = [], status = ([], Info)\<rparr>,
      [ShowError ''Error'' ''No segments to export or no audio loaded.''], None)"
proof -
  let ?st = "\<lparr>source_file_path = ''a.mp3'', min_silence_entry = ''00:01'',
      current_audio_path = Some ''a.mp3'', audio_duration_ms = 10000, split_points = [2000],
      timestamp_tree = [], status = ([], Info)\<rparr>"
  have h: "timestamp_tree ?st = []" by simp
  from export_empty [OF h, of "''out.zip''"] h show ?thesis by simp
qed






end
